theory Spec2Isabelle
  imports Complex_Main "HOL-Library.Log_Nat"
begin

section \<open>JavaScript values used by the tracker\<close>

text \<open>
  The usage tracker is a Node.js program. Its numbers are IEEE doubles; costs, credits and
  token counts are modelled by exact rationals (\<open>number\<close>), time values (the result of
  \<open>new Date(x).getTime()\<close> on a valid date, epoch milliseconds) by \<open>int\<close>. A field that
  may be \<open>undefined\<close> is an \<open>option\<close>; a number that may be \<open>NaN\<close> is a
  \<open>number option\<close> with \<open>None\<close> for \<open>NaN\<close>. Of the functions modelled here only
  the page-size controller goes through \<open>Math.round\<close>, where the rounding of the
  double product decides the integer that is stored, so that product is modelled bit for
  bit (\<open>times_double\<close> below).
\<close>

type_synonym number = rat

subsection \<open>Strings\<close>

definition startsWith :: "string \<Rightarrow> string \<Rightarrow> bool" where
  \<comment> \<open>\<open>s.startsWith(p)\<close>\<close>
  "startsWith s p = (take (length p) s = p)"

definition idTimestamp :: "string \<Rightarrow> string" where
  \<comment> \<open>\<open>id.split('_')[0]\<close>: the part of the id before its first underscore\<close>
  "idTimestamp s = takeWhile (\<lambda>c. c \<noteq> CHR ''_'') s"

function digits :: "nat \<Rightarrow> string" where
  "digits n =
     (if n < 10 then [''0123456789'' ! n]
      else digits (n div 10) @ [''0123456789'' ! (n mod 10)])"
  by pat_completeness auto
termination
  by (relation "measure id") auto

declare digits.simps [simp del]

definition toString :: "int \<Rightarrow> string" where
  \<comment> \<open>\<open>Number.prototype.toString\<close> on an integer time value\<close>
  "toString i = (if i < 0 then CHR ''-'' # digits (nat (- i)) else digits (nat i))"

subsection \<open>Doubles that reach \<open>Math.round\<close>\<close>

text \<open>
  A double with a 53 bit significand: \<open>round53 n\<close> rounds the non-negative integer \<open>n\<close>
  to 53 significant bits, ties to even. \<open>times_double c m\<close> is the double product of the
  integer \<open>c\<close> and the double \<open>m / 2^53\<close>. The two multipliers of the page-size
  controller are \<open>1.5 = double_1_5 / 2^53\<close> (exact) and the double nearest to
  \<open>0.7\<close>, which is \<open>double_0_7 / 2^53\<close>.
\<close>

definition round53 :: "int \<Rightarrow> int" where
  "round53 n =
     (let b = bitlen n in
      if b \<le> 53 then n
      else
        let s = nat (b - 53); q = n div 2 ^ s; r = n mod 2 ^ s; h = 2 ^ (s - 1)
        in (if h < r \<or> (r = h \<and> odd q) then q + 1 else q) * 2 ^ s)"

definition times_double :: "int \<Rightarrow> int \<Rightarrow> rat" where
  "times_double c m =
     (if 0 \<le> c then of_int (round53 (c * m)) / 2 ^ 53
      else - (of_int (round53 (- c * m)) / 2 ^ 53))"

definition double_1_5 :: int where
  "double_1_5 = 13510798882111488"

definition double_0_7 :: int where
  "double_0_7 = 6305039478318694"

definition Math_round :: "rat \<Rightarrow> int" where
  \<comment> \<open>\<open>Math.round\<close>: the nearest integer, a tie going up\<close>
  "Math_round x = \<lfloor>x + 1 / 2\<rfloor>"

section \<open>Data model\<close>

text \<open>
  The raw vendor record, as \<open>parseUsageEvent\<close> reads it. Its fields carry the prefix
  \<open>raw_\<close> here because the canonical event has fields of the same names.
  \<open>raw_details_maxMode\<close> is \<open>details.toolCallComposer.maxMode\<close>.
\<close>

record raw_token_usage =
  raw_inputTokens :: "number option"
  raw_outputTokens :: "number option"
  raw_cacheReadTokens :: "number option"
  raw_cacheWriteTokens :: "number option"
  raw_totalCents :: "number option"

record raw_event =
  raw_timestamp :: "string option"
  raw_kind :: "string option"
  raw_model :: "string option"
  raw_tokenUsage :: "raw_token_usage option"
  raw_requestsCosts :: "number option"
  raw_usageBasedCosts :: "string option"
  raw_customSubscriptionName :: "string option"
  raw_maxMode :: "bool option"
  raw_details_maxMode :: "bool option"

record token_usage =
  inputTokens :: number
  outputTokens :: number
  cacheReadTokens :: number
  cacheWriteTokens :: number
  totalTokens :: number

text \<open>
  \<open>discountedCost\<close> and \<open>discount\<close> are read by \<open>isEventUpdated\<close> and written nowhere
  in the repository, so they are optional fields.
\<close>

record cost_info =
  totalCents :: number
  requestsCosts :: number
  usageBasedCosts :: "number option"
  isIncluded :: bool
  isFree :: bool
  displayCost :: number
  originalCost :: number
  discountedCost :: "number option"
  discount :: "number option"

text \<open>The canonical event. The field \<open>id\<close> of the source is \<open>eventId\<close> here.\<close>

record event =
  eventId :: string
  date :: int
  model :: string
  kind :: string
  kindDisplay :: "string option"
  tokens :: number
  tokenUsage :: "token_usage option"
  cost :: number
  costInfo :: "cost_info option"
  credits :: "number option"
  maxMode :: "bool option"
  source :: string
  rawData :: "raw_event option"

record sync_metadata =
  lastSuccessfulSync :: int
  adaptivePageSize :: "int option"
  syncStrategy :: string

record usage_dataset =
  timestamp :: int
  lastSyncDate :: string
  totalEvents :: nat
  syncMetadata :: "sync_metadata option"
  events :: "event list"

text \<open>
  The configuration object of \<open>config/constants.js\<close>. The storage module reads two of
  its keys, and the object defines neither, so both reads give \<open>undefined\<close>.
\<close>

record config =
  ACTIVE_EVENTS_CHECK_HOURS :: "int option"
  ACTIVE_EVENTS_MAX_COUNT :: "int option"

definition CONFIG :: config where
  "CONFIG = \<lparr>ACTIVE_EVENTS_CHECK_HOURS = None, ACTIVE_EVENTS_MAX_COUNT = None\<rparr>"

section \<open>Active events and update detection\<close>

definition slice0 :: "'a list \<Rightarrow> int \<Rightarrow> 'a list" where
  \<comment> \<open>\<open>xs.slice(0, n)\<close>; a negative \<open>n\<close> counts from the end\<close>
  "slice0 xs n = (if n < 0 then take (nat (int (length xs) + n)) xs else take (nat n) xs)"

text \<open>
  \<open>getActiveEvents\<close> reads the global \<open>CONFIG\<close> and the clock; both are parameters
  here, and the repository runs it at \<open>CONFIG\<close>. With the recency window
  \<open>undefined\<close> the cutoff is \<open>NaN\<close> and no date passes the comparison; with the
  maximum count \<open>undefined\<close> the length is never greater and nothing is cut.
\<close>

definition getActiveEvents :: "config \<Rightarrow> int \<Rightarrow> event list \<Rightarrow> event list" where
  "getActiveEvents cfg now evs =
     (if evs = [] then []
      else
        let timeFilteredEvents =
              (case ACTIVE_EVENTS_CHECK_HOURS cfg of
                 None \<Rightarrow> []
               | Some checkHours \<Rightarrow>
                   let checkMs = checkHours * 60 * 60 * 1000;
                       cutoffTime = now - checkMs
                   in filter (\<lambda>event. cutoffTime \<le> date event) evs)
        in case ACTIVE_EVENTS_MAX_COUNT cfg of
             None \<Rightarrow> timeFilteredEvents
           | Some maxCount \<Rightarrow>
               if maxCount < int (length timeFilteredEvents)
               then slice0 timeFilteredEvents maxCount
               else timeFilteredEvents)"

definition tokenFieldsChanged :: "event \<Rightarrow> event \<Rightarrow> bool" where
  "tokenFieldsChanged existingEvent newEvent =
     (case (tokenUsage existingEvent, tokenUsage newEvent) of
        (Some a, Some b) \<Rightarrow>
          inputTokens a \<noteq> inputTokens b \<or> outputTokens a \<noteq> outputTokens b \<or>
          cacheReadTokens a \<noteq> cacheReadTokens b \<or> cacheWriteTokens a \<noteq> cacheWriteTokens b
      | _ \<Rightarrow> False)"

definition costFieldsChanged :: "event \<Rightarrow> event \<Rightarrow> bool" where
  "costFieldsChanged existingEvent newEvent =
     (case (costInfo existingEvent, costInfo newEvent) of
        (Some a, Some b) \<Rightarrow>
          originalCost a \<noteq> originalCost b \<or> discountedCost a \<noteq> discountedCost b \<or>
          discount a \<noteq> discount b
      | _ \<Rightarrow> False)"

definition isEventUpdated :: "event \<Rightarrow> event \<Rightarrow> bool" where
  "isEventUpdated existingEvent newEvent =
     (if idTimestamp (eventId existingEvent) \<noteq> idTimestamp (eventId newEvent) then False
      else if credits existingEvent \<noteq> credits newEvent then True
      else if tokens existingEvent \<noteq> tokens newEvent then True
      else if cost existingEvent \<noteq> cost newEvent then True
      else if kind existingEvent \<noteq> kind newEvent then True
      else if model existingEvent \<noteq> model newEvent then True
      else if tokenFieldsChanged existingEvent newEvent then True
      else if costFieldsChanged existingEvent newEvent then True
      else False)"

section \<open>Statistics\<close>

text \<open>
  The aggregate of one model or one kind (\<open>byModel[m]\<close>, \<open>byKind[k]\<close>) and of one day
  (\<open>byDate[d]\<close>). Their fields carry the prefixes \<open>agg_\<close> and \<open>day_\<close>. A key of
  \<open>byDate\<close> is the UTC day of the event, kept as the day number \<open>date div 86400000\<close>
  instead of its \<open>YYYY-MM-DD\<close> rendering. In a recent event \<open>None\<close> stands for a
  member that the file does not give a value (absent, or \<open>null\<close> for \<open>NaN\<close>).
\<close>

record bucket =
  agg_count :: nat
  agg_tokens :: number
  agg_cost :: number
  agg_credits :: number
  agg_inputTokens :: number
  agg_outputTokens :: number
  agg_cacheReadTokens :: number
  agg_cacheWriteTokens :: number
  agg_maxMode :: nat

record day_bucket =
  day_count :: nat
  day_tokens :: number
  day_cost :: number

record recent_event =
  recent_id :: string
  recent_date :: int
  recent_model :: string
  recent_kind :: string
  recent_kindDisplay :: "string option"
  recent_tokens :: number
  recent_cost :: number
  recent_tokenUsage :: "token_usage option"
  recent_costInfo :: "cost_info option"
  recent_credits :: "number option"
  recent_maxMode :: "bool option"

record stats =
  stats_timestamp :: int
  stats_totalEvents :: nat
  stats_totalTokens :: number
  totalCost :: number
  estimatedCost :: number
  totalMaxMode :: nat
  byModel :: "string \<rightharpoonup> bucket"
  byKind :: "string \<rightharpoonup> bucket"
  byDate :: "int \<rightharpoonup> day_bucket"
  recentEvents :: "recent_event list"

text \<open>
  \<open>byModel\<close> and \<open>byKind\<close> are plain objects, and the maps here hold their own
  properties, which is what the statistics file shows. \<open>stats.byModel[k]\<close> reads the own
  bucket of \<open>k\<close> when there is one, and otherwise the member that the object inherits
  from \<open>Object.prototype\<close> when \<open>k\<close> is one of the names below. Such a member is a
  function or, for \<open>__proto__\<close>, the prototype itself: it is truthy, so the test
  \<open>!stats.byModel[k]\<close> makes no bucket and the counters of the event are written to the
  inherited member, not to the statistics.
\<close>

definition objectPrototypeKeys :: "string list" where
  "objectPrototypeKeys =
     [''constructor'', ''__defineGetter__'', ''__defineSetter__'', ''hasOwnProperty'',
      ''__lookupGetter__'', ''__lookupSetter__'', ''isPrototypeOf'', ''propertyIsEnumerable'',
      ''toString'', ''valueOf'', ''__proto__'', ''toLocaleString'']"

text \<open>
  The local \<open>maxMode\<close> of the loop: \<open>rawData.maxMode\<close> when it is not \<open>undefined\<close>,
  else the event's \<open>maxMode\<close> when it is not \<open>undefined\<close>, else \<open>false\<close>. Counting
  an event in max mode under the key \<open>__proto__\<close> runs \<open>maxMode++\<close> on
  \<open>Object.prototype\<close>; from then on (\<open>polluted\<close>) an object with no \<open>maxMode\<close> of
  its own reads \<open>NaN\<close> there, which is not \<open>undefined\<close> and is falsy. \<open>None\<close> is
  that \<open>NaN\<close>.
\<close>

definition resolveMaxMode :: "bool \<Rightarrow> event \<Rightarrow> bool option" where
  "resolveMaxMode polluted event =
     (case rawData event of
        Some raw \<Rightarrow>
          (case raw_maxMode raw of
             Some m \<Rightarrow> Some m
           | None \<Rightarrow>
               if polluted then None
               else (case maxMode event of Some m \<Rightarrow> Some m | None \<Rightarrow> Some False))
      | None \<Rightarrow>
          (case maxMode event of
             Some m \<Rightarrow> Some m
           | None \<Rightarrow> if polluted then None else Some False))"

definition eventCost :: "event \<Rightarrow> number" where
  \<comment> \<open>\<open>costInfo.originalCost\<close> when it is there and not zero, else \<open>cost\<close>\<close>
  "eventCost event =
     (case costInfo event of
        Some ci \<Rightarrow> if originalCost ci \<noteq> 0 then originalCost ci else cost event
      | None \<Rightarrow> cost event)"

definition isCharged :: "event \<Rightarrow> bool" where
  "isCharged event \<longleftrightarrow>
     kind event \<noteq> ''errored_not_charged'' \<and>
     kind event \<noteq> ''USAGE_EVENT_KIND_ERRORED_NOT_CHARGED''"

definition modelKey :: "event \<Rightarrow> string" where
  "modelKey event = (if model event = [] then ''unknown'' else model event)"

definition kindKey :: "event \<Rightarrow> string" where
  "kindKey event = (if kind event = [] then ''unknown'' else kind event)"

definition dateKey :: "event \<Rightarrow> int" where
  "dateKey event = date event div 86400000"

definition emptyBucket :: bucket where
  "emptyBucket =
     \<lparr>agg_count = 0, agg_tokens = 0, agg_cost = 0, agg_credits = 0, agg_inputTokens = 0,
      agg_outputTokens = 0, agg_cacheReadTokens = 0, agg_cacheWriteTokens = 0,
      agg_maxMode = 0\<rparr>"

definition addTokenUsage :: "event \<Rightarrow> bucket \<Rightarrow> bucket" where
  "addTokenUsage event b =
     (case tokenUsage event of
        None \<Rightarrow> b
      | Some tu \<Rightarrow>
          b\<lparr>agg_inputTokens := agg_inputTokens b + inputTokens tu,
            agg_outputTokens := agg_outputTokens b + outputTokens tu,
            agg_cacheReadTokens := agg_cacheReadTokens b + cacheReadTokens tu,
            agg_cacheWriteTokens := agg_cacheWriteTokens b + cacheWriteTokens tu\<rparr>)"

definition addToBucket :: "bool \<Rightarrow> bool \<Rightarrow> event \<Rightarrow> bucket \<Rightarrow> bucket" where
  \<comment> \<open>the updates of one bucket; \<open>withCost\<close> says whether the event's cost is added\<close>
  "addToBucket withCost inMaxMode event b =
     addTokenUsage event
       (b\<lparr>agg_count := agg_count b + 1,
          agg_tokens := agg_tokens b + tokens event,
          agg_cost := (if withCost then agg_cost b + eventCost event else agg_cost b),
          agg_credits := agg_credits b + (case credits event of None \<Rightarrow> 0 | Some c \<Rightarrow> c),
          agg_maxMode := (if inMaxMode then agg_maxMode b + 1 else agg_maxMode b)\<rparr>)"

definition updateBucket ::
  "(string \<rightharpoonup> bucket) \<Rightarrow> string \<Rightarrow> (bucket \<Rightarrow> bucket) \<Rightarrow> (string \<rightharpoonup> bucket)" where
  \<comment> \<open>\<open>if (!m[k]) m[k] = {count: 0, ...}; m[k].count++; ...\<close>\<close>
  "updateBucket m k f =
     (case m k of
        Some b \<Rightarrow> m(k \<mapsto> f b)
      | None \<Rightarrow> if k \<in> set objectPrototypeKeys then m else m(k \<mapsto> f emptyBucket))"

definition addToDay :: "event \<Rightarrow> day_bucket option \<Rightarrow> day_bucket" where
  "addToDay event d =
     (let b = (case d of None \<Rightarrow> \<lparr>day_count = 0, day_tokens = 0, day_cost = 0\<rparr> | Some b \<Rightarrow> b)
      in \<lparr>day_count = day_count b + 1, day_tokens = day_tokens b + tokens event,
          day_cost = day_cost b + eventCost event\<rparr>)"

text \<open>
  The body of \<open>data.forEach\<close> in \<open>calculateStats\<close>. The loop state is the statistics
  and whether \<open>Object.prototype\<close> has been given a \<open>maxMode\<close>; \<open>calculateStats\<close>
  starts the loop from the prototype of a fresh process, which has none. The flag reaches
  the \<open>maxMode\<close> counters and the \<open>maxMode\<close> of the recent events only: the sums
  of costs and the keys that have a bucket are the same from either start.
\<close>

fun statsStep :: "stats \<times> bool \<Rightarrow> event \<Rightarrow> stats \<times> bool" where
  "statsStep (st, polluted) event =
     (let inMaxMode = (resolveMaxMode polluted event = Some True)
      in (st\<lparr>stats_totalTokens := stats_totalTokens st + tokens event,
             totalMaxMode := (if inMaxMode then totalMaxMode st + 1 else totalMaxMode st),
             totalCost := (if isCharged event then totalCost st + eventCost event else totalCost st),
             estimatedCost := estimatedCost st + eventCost event,
             byModel := updateBucket (byModel st) (modelKey event)
                          (addToBucket (isCharged event) inMaxMode event),
             byKind := updateBucket (byKind st) (kindKey event) (addToBucket True inMaxMode event),
             byDate := (byDate st)(dateKey event \<mapsto> addToDay event (byDate st (dateKey event)))\<rparr>,
          polluted \<or>
          (inMaxMode \<and> (modelKey event = ''__proto__'' \<or> kindKey event = ''__proto__''))))"

definition sortByDateDesc :: "event list \<Rightarrow> event list" where
  \<comment> \<open>\<open>xs.sort((a, b) => new Date(b.date) - new Date(a.date))\<close>; the sort is stable\<close>
  "sortByDateDesc xs = sort_key (\<lambda>e. - date e) xs"

definition toRecent :: "bool \<Rightarrow> event \<Rightarrow> recent_event" where
  "toRecent polluted event =
     \<lparr>recent_id = eventId event, recent_date = date event, recent_model = model event,
      recent_kind = kind event, recent_kindDisplay = kindDisplay event,
      recent_tokens = tokens event, recent_cost = cost event,
      recent_tokenUsage = tokenUsage event, recent_costInfo = costInfo event,
      recent_credits = credits event, recent_maxMode = resolveMaxMode polluted event\<rparr>"

definition initialStats :: "int \<Rightarrow> nat \<Rightarrow> stats" where
  "initialStats now n =
     \<lparr>stats_timestamp = now, stats_totalEvents = n, stats_totalTokens = 0, totalCost = 0,
      estimatedCost = 0, totalMaxMode = 0, byModel = Map.empty, byKind = Map.empty,
      byDate = Map.empty, recentEvents = []\<rparr>"

definition calculateStats :: "int \<Rightarrow> event list \<Rightarrow> stats" where
  "calculateStats now data =
     (case foldl statsStep (initialStats now (length data), False) data of
        (st, polluted) \<Rightarrow>
          st\<lparr>recentEvents := map (toRecent polluted) (take 10 (sortByDateDesc data))\<rparr>)"

section \<open>The persisted files\<close>

text \<open>
  The data directory holds the usage dataset and the statistics. \<open>writeLog\<close> records
  every \<open>fs.writeFile\<close> in order, so that a skipped write can be told from a write of
  the same content. The file system is taken not to fail. One operation reads the clock
  several times within a few milliseconds; the model gives it one reading, \<open>now\<close>.
\<close>

datatype path = USAGE_DATA_FILE | STATS_FILE

record disk =
  usageDataFile :: "usage_dataset option"
  statsFile :: "stats option"
  writeLog :: "path list"

definition loadUsageData :: "disk \<Rightarrow> usage_dataset option" where
  "loadUsageData fs = usageDataFile fs"

definition updateStats :: "int \<Rightarrow> event list \<Rightarrow> disk \<Rightarrow> disk" where
  "updateStats now evs fs =
     fs\<lparr>statsFile := Some (calculateStats now evs), writeLog := writeLog fs @ [STATS_FILE]\<rparr>"

definition truthyPageSize :: "usage_dataset option \<Rightarrow> int" where
  \<comment> \<open>\<open>data?.syncMetadata?.adaptivePageSize || 500\<close>\<close>
  "truthyPageSize d =
     (case d of
        None \<Rightarrow> 500
      | Some dataset \<Rightarrow>
          (case syncMetadata dataset of
             None \<Rightarrow> 500
           | Some meta \<Rightarrow>
               (case adaptivePageSize meta of
                  None \<Rightarrow> 500
                | Some n \<Rightarrow> if n = 0 then 500 else n)))"

definition saveUsageData :: "int \<Rightarrow> event list \<Rightarrow> bool \<Rightarrow> string option \<Rightarrow> disk \<Rightarrow> disk" where
  "saveUsageData now data isIncremental lastSync fs =
     (let existingData = (if isIncremental then loadUsageData fs else None);
          syncDate =
            (if isIncremental then toString now
             else if 0 < length data then
               (let sortedEvents = sortByDateDesc data;
                    newestEvent = sortedEvents ! 0
                in toString (date newestEvent))
             else toString now);
          dataWithMeta =
            \<lparr>timestamp = now, lastSyncDate = syncDate, totalEvents = length data,
             syncMetadata =
               Some \<lparr>lastSuccessfulSync = now,
                     adaptivePageSize = Some (truthyPageSize existingData),
                     syncStrategy = (if isIncremental then ''incremental'' else ''full'')\<rparr>,
             events = data\<rparr>
      in updateStats now (events dataWithMeta)
           (fs\<lparr>usageDataFile := Some dataWithMeta,
               writeLog := writeLog fs @ [USAGE_DATA_FILE]\<rparr>))"

section \<open>Merging a batch\<close>

text \<open>
  \<open>new Map(newData.map(event => [event.id, event]))\<close>: a later event with the same id
  replaces the value and keeps the place of the first.
\<close>

fun mapSet :: "(string \<times> event) list \<Rightarrow> string \<Rightarrow> event \<Rightarrow> (string \<times> event) list" where
  "mapSet [] k v = [(k, v)]"
| "mapSet ((k', v') # m) k v = (if k' = k then (k, v) # m else (k', v') # mapSet m k v)"

definition newEventsMap :: "event list \<Rightarrow> (string \<times> event) list" where
  "newEventsMap newData = foldl (\<lambda>m event. mapSet m (eventId event) event) [] newData"

fun findIndex :: "('a \<Rightarrow> bool) \<Rightarrow> 'a list \<Rightarrow> nat option" where
  "findIndex P [] = None"
| "findIndex P (x # xs) = (if P x then Some 0 else map_option Suc (findIndex P xs))"

fun checkActiveEvent :: "event list \<Rightarrow> event list \<times> nat \<Rightarrow> event \<Rightarrow> event list \<times> nat" where
  "checkActiveEvent newValues (existingEvents, updatedEvents) activeEvent =
     (let activeTimestamp = idTimestamp (eventId activeEvent)
      in case find (\<lambda>event. eventId event \<noteq> [] \<and> startsWith (eventId event) activeTimestamp)
                newValues of
           None \<Rightarrow> (existingEvents, updatedEvents)
         | Some updatedEvent \<Rightarrow>
             if isEventUpdated activeEvent updatedEvent then
               (case findIndex (\<lambda>e. eventId e = eventId activeEvent) existingEvents of
                  None \<Rightarrow> (existingEvents, updatedEvents + 1)
                | Some eventIndex \<Rightarrow>
                    (existingEvents[eventIndex := updatedEvent], updatedEvents + 1))
             else (existingEvents, updatedEvents))"

definition updatePass :: "config \<Rightarrow> int \<Rightarrow> event list \<Rightarrow> event list \<Rightarrow> event list \<times> nat" where
  \<comment> \<open>step 1 of the merge: the stored events after the replacements, and their number\<close>
  "updatePass cfg now newData existingEvents =
     foldl (checkActiveEvent (map snd (newEventsMap newData))) (existingEvents, 0)
       (getActiveEvents cfg now existingEvents)"

definition additionPass :: "event list \<Rightarrow> event list \<Rightarrow> event list" where
  \<comment> \<open>step 2 of the merge: the incoming events that are new\<close>
  "additionPass newData existingEvents =
     (let existingIds = set (map eventId existingEvents);
          existingTimestamps = set (map (\<lambda>event. idTimestamp (eventId event)) existingEvents)
      in filter (\<lambda>newEvent. eventId newEvent \<notin> existingIds \<and>
                             idTimestamp (eventId newEvent) \<notin> existingTimestamps) newData)"

definition mergeUsageData :: "config \<Rightarrow> int \<Rightarrow> event list \<Rightarrow> bool \<Rightarrow> disk \<Rightarrow> disk" where
  "mergeUsageData cfg now newData isIncremental fs =
     (case loadUsageData fs of
        None \<Rightarrow> saveUsageData now newData isIncremental None fs
      | Some existingData \<Rightarrow>
          if \<not> isIncremental then saveUsageData now newData isIncremental None fs
          else
            (case updatePass cfg now newData (events existingData) of
               (existingEvents, updatedEvents) \<Rightarrow>
                 let newEvents = additionPass newData existingEvents
                 in if length newEvents = 0 \<and> updatedEvents = 0 then fs
                    else
                      let mergedEvents = sortByDateDesc (newEvents @ existingEvents)
                      in saveUsageData now mergedEvents True (Some (lastSyncDate existingData)) fs))"

section \<open>The adaptive page size\<close>

definition nextPageSize :: "int \<Rightarrow> int \<Rightarrow> int \<Rightarrow> rat" where
  \<comment> \<open>\<open>newPageSize\<close> of \<open>updateAdaptivePageSize\<close>, before it is rounded\<close>
  "nextPageSize responseTime eventsCount currentPageSize =
     (if responseTime < 1000 \<and> eventsCount = currentPageSize
      then min (times_double currentPageSize double_1_5) 1000
      else if 3000 < responseTime
      then max (times_double currentPageSize double_0_7) 100
      else of_int currentPageSize)"

definition updateAdaptivePageSize :: "int \<Rightarrow> int \<Rightarrow> disk \<Rightarrow> disk" where
  "updateAdaptivePageSize responseTime eventsCount fs =
     (case loadUsageData fs of
        None \<Rightarrow> fs
      | Some data \<Rightarrow>
          (case syncMetadata data of
             None \<Rightarrow> fs
           | Some meta \<Rightarrow>
               let currentPageSize = truthyPageSize (Some data);
                   newPageSize = nextPageSize responseTime eventsCount currentPageSize
               in if newPageSize \<noteq> of_int currentPageSize then
                    fs\<lparr>usageDataFile :=
                         Some (data\<lparr>syncMetadata :=
                                 Some (meta\<lparr>adaptivePageSize := Some (Math_round newPageSize)\<rparr>)\<rparr>),
                       writeLog := writeLog fs @ [USAGE_DATA_FILE]\<rparr>
                  else fs))"

section \<open>The event normalizer\<close>

text \<open>
  \<open>parseInt\<close> and \<open>parseFloat\<close> on ASCII text: leading white space, a sign, then the
  longest numeric prefix; \<open>None\<close> is \<open>NaN\<close>. The value is the exact one (the source
  has the nearest double), and the literal \<open>Infinity\<close> of \<open>parseFloat\<close> is outside
  the model, as is a timestamp beyond the range of \<open>Date\<close>.
\<close>

definition isWhiteSpace :: "char \<Rightarrow> bool" where
  "isWhiteSpace c \<longleftrightarrow> (of_char c :: nat) \<in> {9, 10, 11, 12, 13, 32}"

definition digitValue :: "char \<Rightarrow> nat option" where
  \<comment> \<open>the value of a digit in base 16\<close>
  "digitValue c =
     (let n = (of_char c :: nat)
      in if 48 \<le> n \<and> n \<le> 57 then Some (n - 48)
         else if 97 \<le> n \<and> n \<le> 102 then Some (n - 87)
         else if 65 \<le> n \<and> n \<le> 70 then Some (n - 55)
         else None)"

definition isDigitIn :: "nat \<Rightarrow> char \<Rightarrow> bool" where
  "isDigitIn radix c = (case digitValue c of None \<Rightarrow> False | Some v \<Rightarrow> v < radix)"

definition digitsValue :: "nat \<Rightarrow> string \<Rightarrow> nat" where
  "digitsValue radix ds =
     foldl (\<lambda>acc c. acc * radix + (case digitValue c of None \<Rightarrow> 0 | Some v \<Rightarrow> v)) 0 ds"

definition stripSign :: "string \<Rightarrow> bool \<times> string" where
  \<comment> \<open>whether a minus sign was read, and the rest\<close>
  "stripSign s =
     (case s of
        c # rest \<Rightarrow>
          if c = CHR ''-'' then (True, rest)
          else if c = CHR ''+'' then (False, rest)
          else (False, s)
      | [] \<Rightarrow> (False, s))"

definition parseInt :: "string \<Rightarrow> int option" where
  "parseInt s =
     (case stripSign (dropWhile isWhiteSpace s) of
        (negative, s1) \<Rightarrow>
          let hex = (take 2 s1 = ''0x'' \<or> take 2 s1 = ''0X'');
              radix = (if hex then 16 else 10);
              ds = takeWhile (isDigitIn radix) (if hex then drop 2 s1 else s1)
          in if ds = [] then None
             else Some ((if negative then - 1 else 1) * int (digitsValue radix ds)))"

definition parseFloat :: "string \<Rightarrow> number option" where
  "parseFloat s =
     (case stripSign (dropWhile isWhiteSpace s) of
        (negative, s1) \<Rightarrow>
          let ip = takeWhile (isDigitIn 10) s1;
              s2 = dropWhile (isDigitIn 10) s1;
              fp = (if take 1 s2 = ''.'' then takeWhile (isDigitIn 10) (drop 1 s2) else []);
              s3 = (if take 1 s2 = ''.'' then dropWhile (isDigitIn 10) (drop 1 s2) else s2)
          in if ip = [] \<and> fp = [] then None
             else
               let mantissa = of_nat (digitsValue 10 (ip @ fp)) / 10 ^ length fp;
                   ex = (if take 1 s3 = ''e'' \<or> take 1 s3 = ''E'' then
                           (case stripSign (drop 1 s3) of
                              (eneg, s4) \<Rightarrow>
                                let ed = takeWhile (isDigitIn 10) s4
                                in if ed = [] then 0
                                   else (if eneg then - 1 else 1) * int (digitsValue 10 ed))
                         else 0);
                   v = mantissa * (if 0 \<le> ex then 10 ^ nat ex else 1 / 10 ^ nat (- ex))
               in Some (if negative then - v else v))"

definition parseTimestamp :: "int \<Rightarrow> raw_event \<Rightarrow> int" where
  "parseTimestamp now event =
     (case raw_timestamp event of
        None \<Rightarrow> now
      | Some t \<Rightarrow>
          if t = [] then now
          else (case parseInt t of
                  None \<Rightarrow> now
                | Some ts \<Rightarrow> if 1577836800000 < ts then ts else now))"

definition orZero :: "number option \<Rightarrow> number" where
  \<comment> \<open>\<open>x || 0\<close>\<close>
  "orZero x = (case x of None \<Rightarrow> 0 | Some v \<Rightarrow> v)"

definition truthy :: "number option \<Rightarrow> bool" where
  "truthy x = (case x of None \<Rightarrow> False | Some v \<Rightarrow> v \<noteq> 0)"

definition parseTokenUsage :: "raw_event \<Rightarrow> token_usage" where
  "parseTokenUsage event =
     (case raw_tokenUsage event of
        None \<Rightarrow>
          \<lparr>inputTokens = 0, outputTokens = 0, cacheReadTokens = 0, cacheWriteTokens = 0,
           totalTokens = 0\<rparr>
      | Some tu \<Rightarrow>
          \<lparr>inputTokens = orZero (raw_inputTokens tu),
           outputTokens = orZero (raw_outputTokens tu),
           cacheReadTokens = orZero (raw_cacheReadTokens tu),
           cacheWriteTokens = orZero (raw_cacheWriteTokens tu),
           totalTokens = orZero (raw_inputTokens tu) + orZero (raw_outputTokens tu) +
             orZero (raw_cacheReadTokens tu) + orZero (raw_cacheWriteTokens tu)\<rparr>)"

definition includedKinds :: "string list" where
  "includedKinds =
     [''USAGE_EVENT_KIND_CUSTOM_SUBSCRIPTION'', ''USAGE_EVENT_KIND_INCLUDED_IN_PRO'',
      ''USAGE_EVENT_KIND_INCLUDED_IN_BUSINESS'', ''USAGE_EVENT_KIND_INCLUDED_IN_PRO_PLUS'',
      ''USAGE_EVENT_KIND_INCLUDED_IN_ULTRA'']"

definition notChargedKinds :: "string list" where
  "notChargedKinds =
     [''USAGE_EVENT_KIND_ERRORED_NOT_CHARGED'', ''USAGE_EVENT_KIND_ABORTED_NOT_CHARGED'']"

definition kindIn :: "raw_event \<Rightarrow> string list \<Rightarrow> bool" where
  "kindIn event ks = (case raw_kind event of None \<Rightarrow> False | Some k \<Rightarrow> k \<in> set ks)"

definition rawTotalCents :: "raw_event \<Rightarrow> number option" where
  \<comment> \<open>\<open>event.tokenUsage && event.tokenUsage.totalCents\<close>\<close>
  "rawTotalCents event =
     (case raw_tokenUsage event of None \<Rightarrow> None | Some tu \<Rightarrow> raw_totalCents tu)"

definition positive :: "number option \<Rightarrow> bool" where
  \<comment> \<open>\<open>x > 0\<close>, false on \<open>NaN\<close>\<close>
  "positive x = (case x of None \<Rightarrow> False | Some v \<Rightarrow> 0 < v)"

definition parseCostInfo :: "raw_event \<Rightarrow> cost_info" where
  "parseCostInfo event =
     (let costInfo0 =
            \<lparr>totalCents = 0, requestsCosts = 0, usageBasedCosts = Some 0, isIncluded = False,
             isFree = False, displayCost = 0, originalCost = 0, discountedCost = None,
             discount = None\<rparr>;
          costInfo1 =
            (if truthy (rawTotalCents event)
             then costInfo0\<lparr>totalCents := orZero (rawTotalCents event),
                             originalCost := orZero (rawTotalCents event) / 100\<rparr>
             else costInfo0);
          costInfo2 =
            (if truthy (raw_requestsCosts event)
             then costInfo1\<lparr>requestsCosts := orZero (raw_requestsCosts event)\<rparr>
             else costInfo1);
          costInfo3 =
            (case raw_usageBasedCosts event of
               None \<Rightarrow> costInfo2
             | Some u \<Rightarrow>
                 if u \<noteq> [] \<and> u \<noteq> ''-'' then costInfo2\<lparr>usageBasedCosts := parseFloat u\<rparr>
                 else costInfo2)
      in if kindIn event includedKinds then costInfo3\<lparr>isIncluded := True, displayCost := 0\<rparr>
         else if kindIn event notChargedKinds then costInfo3\<lparr>isFree := True, displayCost := 0\<rparr>
         else if 0 < totalCents costInfo3
         then costInfo3\<lparr>displayCost := totalCents costInfo3 / 100\<rparr>
         else if positive (usageBasedCosts costInfo3)
         then costInfo3\<lparr>displayCost := orZero (usageBasedCosts costInfo3)\<rparr>
         else if 0 < requestsCosts costInfo3
         then costInfo3\<lparr>displayCost := requestsCosts costInfo3\<rparr>
         else costInfo3)"

definition parseKind :: "raw_event \<Rightarrow> string \<times> string" where
  \<comment> \<open>the pair \<open>(kind, kindDisplay)\<close> of the \<open>switch\<close>\<close>
  "parseKind event =
     (case raw_kind event of
        None \<Rightarrow> (''unknown'', ''Unknown'')
      | Some k \<Rightarrow>
          if k = ''USAGE_EVENT_KIND_CUSTOM_SUBSCRIPTION'' then
            (if raw_customSubscriptionName event = Some ''pro-free-trial''
             then (''pro-free-trial'', ''Pro Free Trial'')
             else if raw_customSubscriptionName event = Some ''free''
             then (''free'', ''Free'')
             else (''custom_subscription'',
                   (case raw_customSubscriptionName event of
                      None \<Rightarrow> ''Custom Subscription''
                    | Some n \<Rightarrow> if n = [] then ''Custom Subscription'' else n)))
          else if k = ''USAGE_EVENT_KIND_INCLUDED_IN_PRO''
          then (''included_pro'', ''Included in Pro'')
          else if k = ''USAGE_EVENT_KIND_INCLUDED_IN_BUSINESS''
          then (''included_business'', ''Included in Business'')
          else if k = ''USAGE_EVENT_KIND_INCLUDED_IN_PRO_PLUS''
          then (''included_pro_plus'', ''Included in Pro+'')
          else if k = ''USAGE_EVENT_KIND_INCLUDED_IN_ULTRA''
          then (''included_ultra'', ''Included in Ultra'')
          else if k = ''USAGE_EVENT_KIND_ERRORED_NOT_CHARGED''
          then (''errored_not_charged'', ''Errored, Not Charged'')
          else if k = ''USAGE_EVENT_KIND_ABORTED_NOT_CHARGED''
          then (''aborted_not_charged'', ''Aborted, Not Charged'')
          else if k = ''USAGE_EVENT_KIND_USAGE_BASED''
          then (''usage_based'', ''Usage Based'')
          else if k = ''USAGE_EVENT_KIND_USER_API_KEY''
          then (''user_api_key'', ''User API Key'')
          else (''unknown'', ''Unknown''))"

definition parseModel :: "raw_event \<Rightarrow> string" where
  "parseModel event =
     (let m = (case raw_model event of None \<Rightarrow> ''auto'' | Some m \<Rightarrow> if m = [] then ''auto'' else m)
      in if m = ''default'' then ''auto'' else m)"

definition parseMaxMode :: "raw_event \<Rightarrow> bool" where
  "parseMaxMode event =
     (case raw_maxMode event of
        Some m \<Rightarrow> m
      | None \<Rightarrow> (case raw_details_maxMode event of Some m \<Rightarrow> m | None \<Rightarrow> False))"

text \<open>
  \<open>rnd\<close> is the random suffix \<open>Math.random().toString(36).substr(2, 9)\<close>. An entry of
  the vendor's array that is not an object (\<open>None\<close>) raises inside the \<open>try\<close> and gives
  \<open>null\<close>.
\<close>

definition parseUsageEvent :: "int \<Rightarrow> string \<Rightarrow> raw_event option \<Rightarrow> event option" where
  "parseUsageEvent now rnd ev =
     (case ev of
        None \<Rightarrow> None
      | Some event \<Rightarrow>
          let tokenUsage' = parseTokenUsage event;
              costInfo' = parseCostInfo event
          in Some
               \<lparr>eventId =
                  (case raw_timestamp event of None \<Rightarrow> ''undefined'' | Some t \<Rightarrow> t) @ ''_'' @ rnd,
                date = parseTimestamp now event,
                model = parseModel event,
                kind = fst (parseKind event),
                kindDisplay = Some (snd (parseKind event)),
                tokens = totalTokens tokenUsage',
                tokenUsage = Some tokenUsage',
                cost = displayCost costInfo',
                costInfo = Some costInfo',
                credits =
                  Some (if truthy (raw_requestsCosts event) then orZero (raw_requestsCosts event)
                        else requestsCosts costInfo'),
                maxMode = Some (parseMaxMode event),
                source = ''API'',
                rawData = Some event\<rparr>)"

section \<open>Observations, the specification's wording, and sample data\<close>

definition storedPageSize :: "disk \<Rightarrow> int option" where
  \<comment> \<open>the persisted \<open>syncMetadata.adaptivePageSize\<close>\<close>
  "storedPageSize fs =
     (case usageDataFile fs of
        None \<Rightarrow> None
      | Some d \<Rightarrow> (case syncMetadata d of None \<Rightarrow> None | Some m \<Rightarrow> adaptivePageSize m))"

definition costAt :: "(string \<rightharpoonup> bucket) \<Rightarrow> string \<Rightarrow> number" where
  \<comment> \<open>the cost of the own bucket of a key, 0 when there is none\<close>
  "costAt m k = (case m k of None \<Rightarrow> 0 | Some b \<Rightarrow> agg_cost b)"

definition persistedEvents :: "disk \<Rightarrow> event list" where
  "persistedEvents fs = (case usageDataFile fs of None \<Rightarrow> [] | Some d \<Rightarrow> events d)"

definition persistedWatermark :: "disk \<Rightarrow> string option" where
  "persistedWatermark fs = map_option lastSyncDate (usageDataFile fs)"

definition sortedNewestFirst :: "event list \<Rightarrow> bool" where
  "sortedNewestFirst evs = sorted_wrt (\<lambda>a b. date b \<le> date a) evs"

definition hasTimestamp :: "string \<Rightarrow> event \<Rightarrow> bool" where
  \<comment> \<open>the id of the event starts with the timestamp prefix \<open>T\<close>\<close>
  "hasTimestamp T e \<longleftrightarrow> idTimestamp (eventId e) = T"


text \<open>
  The values that the README gives for the two keys the configuration object lacks.
\<close>

definition README_CONFIG :: config where
  "README_CONFIG = \<lparr>ACTIVE_EVENTS_CHECK_HOURS = Some 24, ACTIVE_EVENTS_MAX_COUNT = Some 100\<rparr>"

definition sampleEvent :: "string \<Rightarrow> int \<Rightarrow> number \<Rightarrow> event" where
  \<comment> \<open>a usage-based event with the given id and date, and \<open>c\<close> as cost and credits\<close>
  "sampleEvent i d c =
     \<lparr>eventId = i, date = d, model = ''auto'', kind = ''usage_based'',
      kindDisplay = Some ''Usage Based'', tokens = 30,
      tokenUsage = Some \<lparr>inputTokens = 10, outputTokens = 20, cacheReadTokens = 0,
                          cacheWriteTokens = 0, totalTokens = 30\<rparr>,
      cost = c,
      costInfo = Some \<lparr>totalCents = 0, requestsCosts = c, usageBasedCosts = Some 0,
                        isIncluded = False, isFree = False, displayCost = c, originalCost = 0,
                        discountedCost = None, discount = None\<rparr>,
      credits = Some c, maxMode = Some False, source = ''API'', rawData = None\<rparr>"

definition sampleDisk :: "event list \<Rightarrow> int \<Rightarrow> disk" where
  \<comment> \<open>a data directory whose dataset holds the given events and page size\<close>
  "sampleDisk evs pageSize =
     \<lparr>usageDataFile =
        Some \<lparr>timestamp = 0, lastSyncDate = ''1'', totalEvents = length evs,
              syncMetadata = Some \<lparr>lastSuccessfulSync = 0, adaptivePageSize = Some pageSize,
                                    syncStrategy = ''full''\<rparr>,
              events = evs\<rparr>,
      statsFile = None, writeLog = []\<rparr>"

definition sampleRaw :: "string \<Rightarrow> number \<Rightarrow> raw_event" where
  "sampleRaw k cents =
     \<lparr>raw_timestamp = Some ''1700000000000'', raw_kind = Some k, raw_model = Some ''default'',
      raw_tokenUsage =
        Some \<lparr>raw_inputTokens = Some 10, raw_outputTokens = Some 20,
              raw_cacheReadTokens = None, raw_cacheWriteTokens = None,
              raw_totalCents = Some cents\<rparr>,
      raw_requestsCosts = Some 1, raw_usageBasedCosts = Some ''-'',
      raw_customSubscriptionName = None, raw_maxMode = None, raw_details_maxMode = None\<rparr>"

definition sampleEvents :: "event list" where
  "sampleEvents =
     [sampleEvent ''1700000000100_a'' 1700000000100 4,
      (sampleEvent ''1700000000200_b'' 1700000000200 5)\<lparr>kind := ''errored_not_charged''\<rparr>,
      sampleEvent ''1700000000300_c'' 1700000000300 6]"

section \<open>The adaptive page size: rounding and bounds\<close>














section \<open>Update detection\<close>

text \<open>
  Claim C8. For two events with the same timestamp prefix, each carrying \<open>tokenUsage\<close>
  and \<open>costInfo\<close> as every normalized event does, \<open>isEventUpdated\<close> is true
  exactly when one of \<open>credits\<close>, \<open>tokens\<close>, \<open>cost\<close>, \<open>kind\<close>, \<open>model\<close>
  differs, or one of the four token counts of \<open>tokenUsage\<close>, or one of
  \<open>originalCost\<close>, \<open>discountedCost\<close>, \<open>discount\<close> of \<open>costInfo\<close>. The full
  ids play no part beyond their prefix.
\<close>

theorem isEventUpdated_iff:
  assumes "idTimestamp (eventId a) = idTimestamp (eventId b)"
    and "tokenUsage a = Some ta" "tokenUsage b = Some tb"
    and "costInfo a = Some ca" "costInfo b = Some cb"
  shows "isEventUpdated a b \<longleftrightarrow>
           (credits a \<noteq> credits b \<or> tokens a \<noteq> tokens b \<or> cost a \<noteq> cost b \<or>
            kind a \<noteq> kind b \<or> model a \<noteq> model b) \<or>
           (inputTokens ta \<noteq> inputTokens tb \<or> outputTokens ta \<noteq> outputTokens tb \<or>
            cacheReadTokens ta \<noteq> cacheReadTokens tb \<or>
            cacheWriteTokens ta \<noteq> cacheWriteTokens tb) \<or>
           (originalCost ca \<noteq> originalCost cb \<or> discountedCost ca \<noteq> discountedCost cb \<or>
            discount ca \<noteq> discount cb)"
  using assms
  by (simp add: isEventUpdated_def tokenFieldsChanged_def costFieldsChanged_def)

lemma idTimestamp_sample [simp]:
  "idTimestamp ''1700000000000_abc'' = ''1700000000000''"
  "idTimestamp ''1700000000000_xyz'' = ''1700000000000''"
  by (simp_all add: idTimestamp_def)

theorem isEventUpdated_iff_witness:
  "\<not> isEventUpdated (sampleEvent ''1700000000000_abc'' 5 1)
       (sampleEvent ''1700000000000_xyz'' 5 1) \<and>
   isEventUpdated (sampleEvent ''1700000000000_abc'' 5 1)
     ((sampleEvent ''1700000000000_xyz'' 5 1)\<lparr>credits := Some 2\<rparr>)"
proof -
  let ?a = "sampleEvent ''1700000000000_abc'' 5 1"
  let ?b = "sampleEvent ''1700000000000_xyz'' 5 1"
  let ?c = "?b\<lparr>credits := Some 2\<rparr>"
  have p: "idTimestamp (eventId ?a) = idTimestamp (eventId ?b)"
    "idTimestamp (eventId ?a) = idTimestamp (eventId ?c)"
    by (simp_all add: sampleEvent_def)
  have t: "tokenUsage ?a = Some (the (tokenUsage ?a))" "tokenUsage ?b = Some (the (tokenUsage ?b))"
    "tokenUsage ?c = Some (the (tokenUsage ?c))"
    by (simp_all add: sampleEvent_def)
  have c: "costInfo ?a = Some (the (costInfo ?a))" "costInfo ?b = Some (the (costInfo ?b))"
    "costInfo ?c = Some (the (costInfo ?c))"
    by (simp_all add: sampleEvent_def)
  have "\<not> isEventUpdated ?a ?b"
    unfolding isEventUpdated_iff [OF p(1) t(1) t(2) c(1) c(2)]
    by (simp add: sampleEvent_def)
  moreover have "isEventUpdated ?a ?c"
    unfolding isEventUpdated_iff [OF p(2) t(1) t(3) c(1) c(3)]
    by (simp add: sampleEvent_def)
  ultimately show ?thesis by simp
qed

section \<open>Active events\<close>

lemma getActiveEvents_CONFIG: "getActiveEvents CONFIG now evs = []"
  by (simp add: getActiveEvents_def CONFIG_def)


text \<open>
  Claim C2 at a concrete input. One stored event dated 1000 seconds before now: with the
  configuration object of the repository the selection is empty, because the recency window
  and the maximum count are \<open>undefined\<close>; with the values the README documents (24
  hours, 100 events) the event is selected.
\<close>

theorem active_events_never_selected:
  "getActiveEvents CONFIG 1700000000000
     [sampleEvent ''1699999000000_abc'' 1699999000000 1] = [] \<and>
   getActiveEvents README_CONFIG 1700000000000
     [sampleEvent ''1699999000000_abc'' 1699999000000 1] =
     [sampleEvent ''1699999000000_abc'' 1699999000000 1]"
  by (simp add: getActiveEvents_def CONFIG_def README_CONFIG_def sampleEvent_def)

section \<open>Saving\<close>

lemma usageDataFile_updateStats [simp]:
  "usageDataFile (updateStats now evs fs) = usageDataFile fs"
  by (simp add: updateStats_def)

lemma writeLog_updateStats [simp]:
  "writeLog (updateStats now evs fs) = writeLog fs @ [STATS_FILE]"
  by (simp add: updateStats_def)

lemma persistedEvents_save [simp]:
  "persistedEvents (saveUsageData now data isIncremental ls fs) = data"
  by (simp add: saveUsageData_def persistedEvents_def Let_def)

lemma writeLog_save [simp]:
  "writeLog (saveUsageData now data isIncremental ls fs) =
     writeLog fs @ [USAGE_DATA_FILE, STATS_FILE]"
  by (simp add: saveUsageData_def Let_def)

lemma storedPageSize_save:
  "storedPageSize (saveUsageData now data isIncremental ls fs) =
     Some (if isIncremental then truthyPageSize (usageDataFile fs) else 500)"
  by (simp add: saveUsageData_def storedPageSize_def Let_def loadUsageData_def truthyPageSize_def)

lemma truthyPageSize_stored:
  "storedPageSize fs = Some n \<Longrightarrow> n \<noteq> 0 \<Longrightarrow> truthyPageSize (usageDataFile fs) = n"
  by (auto simp: storedPageSize_def truthyPageSize_def split: option.splits)

lemma storedPageSize_merge_full:
  "storedPageSize (mergeUsageData cfg now data False fs) = Some 500"
  by (simp add: mergeUsageData_def storedPageSize_save split: option.splits)

text \<open>
  Claim C10. A full (non-incremental) save persists the adaptive page size 500 whatever
  was persisted before, also when the controller changed the size just before a full
  merge; an incremental save carries a persisted non-zero size forward.
\<close>

theorem full_save_resets_page_size:
  "storedPageSize (saveUsageData now data False ls fs) = Some 500 \<and>
   storedPageSize (mergeUsageData cfg now data False (updateAdaptivePageSize rt cnt fs)) =
     Some 500 \<and>
   (storedPageSize fs = Some n \<and> n \<noteq> 0 \<longrightarrow>
      storedPageSize (saveUsageData now data True ls fs) = Some n)"
  by (simp add: storedPageSize_save storedPageSize_merge_full truthyPageSize_stored)

theorem full_save_resets_page_size_witness:
  "storedPageSize (sampleDisk [] 750) = Some 750 \<and>
   storedPageSize (saveUsageData 5 [] False None (sampleDisk [] 750)) = Some 500 \<and>
   storedPageSize (saveUsageData 5 [] True None (sampleDisk [] 750)) = Some 750"
proof -
  have s: "storedPageSize (sampleDisk [] 750) = Some 750"
    by (simp add: storedPageSize_def sampleDisk_def)
  from full_save_resets_page_size [of 5 "[]" None "sampleDisk [] 750" CONFIG 0 0 750] s
  show ?thesis by simp
qed

lemma newest_is_Max:
  assumes "data \<noteq> []"
  shows "date (sortByDateDesc data ! 0) = Max (date ` set data)"
proof -
  let ?ys = "sortByDateDesc data"
  have "length ?ys = length data" by (simp add: sortByDateDesc_def)
  then have ne: "?ys \<noteq> []" using assms by auto
  then obtain y ys where ys: "?ys = y # ys" by (cases ?ys) auto
  have "sorted (map (\<lambda>e. - date e) ?ys)" by (simp add: sortByDateDesc_def)
  then have le: "\<forall>z \<in> set ys. date z \<le> date y" unfolding ys by auto
  have s: "set data = insert y (set ys)"
    using arg_cong[OF ys, of set] by (simp add: sortByDateDesc_def)
  have "Max (date ` set data) = date y"
    unfolding s using le by (intro Max_eqI) auto
  then show ?thesis by (simp add: ys)
qed

text \<open>
  Claim C5. A full save sets \<open>lastSyncDate\<close> to the greatest date among the saved
  events, or to the current time when there is none; an incremental save sets it to the
  current time whatever the dates are. The watermark is the decimal text of the time.
\<close>

theorem save_watermark:
  "persistedWatermark (saveUsageData now data isIncremental ls fs) =
     Some (if isIncremental then toString now
           else if data = [] then toString now
           else toString (Max (date ` set data)))"
  by (simp add: saveUsageData_def persistedWatermark_def Let_def newest_is_Max)

theorem save_watermark_witness:
  "persistedWatermark
     (saveUsageData 1700000000500
        [sampleEvent ''1700000000100_a'' 1700000000100 1,
         sampleEvent ''1700000000300_b'' 1700000000300 1,
         sampleEvent ''1700000000200_c'' 1700000000200 1] False None (sampleDisk [] 500)) =
     Some ''1700000000300'' \<and>
   persistedWatermark
     (saveUsageData 1700000000500
        [sampleEvent ''1700000000100_a'' 1700000000100 1] True None (sampleDisk [] 500)) =
     Some ''1700000000500''"
proof -
  have t: "toString 1700000000300 = ''1700000000300''" "toString 1700000000500 = ''1700000000500''"
    by (simp_all add: toString_def digits.simps)
  show ?thesis
    unfolding save_watermark by (simp add: sampleEvent_def t)
qed

section \<open>Cost precedence\<close>

lemma parseCostInfo_fields:
  "totalCents (parseCostInfo raw) = orZero (rawTotalCents raw)"
  "requestsCosts (parseCostInfo raw) = orZero (raw_requestsCosts raw)"
  "usageBasedCosts (parseCostInfo raw) =
     (case raw_usageBasedCosts raw of
        None \<Rightarrow> Some 0
      | Some u \<Rightarrow> if u = [] \<or> u = ''-'' then Some 0 else parseFloat u)"
  by (auto simp: parseCostInfo_def Let_def truthy_def orZero_def split: option.splits)

lemma parseCostInfo_displayCost:
  "displayCost (parseCostInfo raw) =
     (if kindIn raw includedKinds then 0
      else if kindIn raw notChargedKinds then 0
      else if 0 < totalCents (parseCostInfo raw) then totalCents (parseCostInfo raw) / 100
      else if positive (usageBasedCosts (parseCostInfo raw))
      then orZero (usageBasedCosts (parseCostInfo raw))
      else if 0 < requestsCosts (parseCostInfo raw) then requestsCosts (parseCostInfo raw)
      else 0)"
  by (simp add: parseCostInfo_def Let_def split: option.splits)

lemma kindIn_image: "kindIn raw ks \<longleftrightarrow> raw_kind raw \<in> Some ` set ks"
  by (auto simp: kindIn_def split: option.splits)

text \<open>
  Claim C4. The normalizer accepts every raw vendor record and chooses \<open>displayCost\<close>
  by precedence: 0 for a kind included in a plan, also when \<open>totalCents\<close> is not zero;
  else 0 for the errored and aborted kinds that are not charged; else \<open>totalCents / 100\<close>
  when \<open>totalCents\<close> is positive; else \<open>usageBasedCosts\<close> when positive; else
  \<open>requestsCosts\<close> when positive; else 0.
\<close>

theorem displayCost_precedence:
  "\<exists>ev ci. parseUsageEvent now rnd (Some raw) = Some ev \<and> costInfo ev = Some ci \<and>
     cost ev = displayCost ci \<and>
     totalCents ci = orZero (rawTotalCents raw) \<and>
     requestsCosts ci = orZero (raw_requestsCosts raw) \<and>
     usageBasedCosts ci =
       (case raw_usageBasedCosts raw of
          None \<Rightarrow> Some 0
        | Some u \<Rightarrow> if u = [] \<or> u = ''-'' then Some 0 else parseFloat u) \<and>
     displayCost ci =
       (if raw_kind raw \<in> Some ` {''USAGE_EVENT_KIND_CUSTOM_SUBSCRIPTION'',
              ''USAGE_EVENT_KIND_INCLUDED_IN_PRO'', ''USAGE_EVENT_KIND_INCLUDED_IN_BUSINESS'',
              ''USAGE_EVENT_KIND_INCLUDED_IN_PRO_PLUS'', ''USAGE_EVENT_KIND_INCLUDED_IN_ULTRA''}
        then 0
        else if raw_kind raw \<in> Some ` {''USAGE_EVENT_KIND_ERRORED_NOT_CHARGED'',
              ''USAGE_EVENT_KIND_ABORTED_NOT_CHARGED''}
        then 0
        else if 0 < totalCents ci then totalCents ci / 100
        else if positive (usageBasedCosts ci) then orZero (usageBasedCosts ci)
        else if 0 < requestsCosts ci then requestsCosts ci
        else 0)"
proof -
  let ?ci = "parseCostInfo raw"
  have i: "kindIn raw includedKinds \<longleftrightarrow>
      raw_kind raw \<in> Some ` {''USAGE_EVENT_KIND_CUSTOM_SUBSCRIPTION'',
              ''USAGE_EVENT_KIND_INCLUDED_IN_PRO'', ''USAGE_EVENT_KIND_INCLUDED_IN_BUSINESS'',
              ''USAGE_EVENT_KIND_INCLUDED_IN_PRO_PLUS'', ''USAGE_EVENT_KIND_INCLUDED_IN_ULTRA''}"
    unfolding kindIn_image includedKinds_def by simp
  have n: "kindIn raw notChargedKinds \<longleftrightarrow>
      raw_kind raw \<in> Some ` {''USAGE_EVENT_KIND_ERRORED_NOT_CHARGED'',
              ''USAGE_EVENT_KIND_ABORTED_NOT_CHARGED''}"
    unfolding kindIn_image notChargedKinds_def by simp
  have d: "displayCost ?ci =
       (if raw_kind raw \<in> Some ` {''USAGE_EVENT_KIND_CUSTOM_SUBSCRIPTION'',
              ''USAGE_EVENT_KIND_INCLUDED_IN_PRO'', ''USAGE_EVENT_KIND_INCLUDED_IN_BUSINESS'',
              ''USAGE_EVENT_KIND_INCLUDED_IN_PRO_PLUS'', ''USAGE_EVENT_KIND_INCLUDED_IN_ULTRA''}
        then 0
        else if raw_kind raw \<in> Some ` {''USAGE_EVENT_KIND_ERRORED_NOT_CHARGED'',
              ''USAGE_EVENT_KIND_ABORTED_NOT_CHARGED''}
        then 0
        else if 0 < totalCents ?ci then totalCents ?ci / 100
        else if positive (usageBasedCosts ?ci) then orZero (usageBasedCosts ?ci)
        else if 0 < requestsCosts ?ci then requestsCosts ?ci
        else 0)"
    by (subst parseCostInfo_displayCost) (simp only: i n)
  have "\<exists>ev. parseUsageEvent now rnd (Some raw) = Some ev \<and> costInfo ev = Some ?ci \<and>
          cost ev = displayCost ?ci"
    by (simp add: parseUsageEvent_def Let_def)
  with d parseCostInfo_fields[of raw] show ?thesis by blast
qed

theorem displayCost_precedence_witness:
  "\<exists>ev ci. parseUsageEvent 1700000000500 ''k3x9'' (Some (sampleRaw ''USAGE_EVENT_KIND_INCLUDED_IN_PRO'' 250)) = Some ev \<and>
     costInfo ev = Some ci \<and> totalCents ci = 250 \<and> displayCost ci = 0 \<and> cost ev = 0"
proof -
  from displayCost_precedence [of 1700000000500 "''k3x9''" "sampleRaw ''USAGE_EVENT_KIND_INCLUDED_IN_PRO'' 250"]
  obtain ev ci where
    "parseUsageEvent 1700000000500 ''k3x9'' (Some (sampleRaw ''USAGE_EVENT_KIND_INCLUDED_IN_PRO'' 250)) = Some ev"
    "costInfo ev = Some ci" "cost ev = displayCost ci"
    "totalCents ci = orZero (rawTotalCents (sampleRaw ''USAGE_EVENT_KIND_INCLUDED_IN_PRO'' 250))"
    "displayCost ci = 0"
    by (auto simp: sampleRaw_def)
  then show ?thesis by (auto simp: sampleRaw_def rawTotalCents_def orZero_def)
qed

section \<open>Statistics\<close>

lemma agg_cost_addToBucket [simp]:
  "agg_cost (addToBucket w mm e b) = (if w then agg_cost b + eventCost e else agg_cost b)"
  by (simp add: addToBucket_def addTokenUsage_def split: option.splits)

lemma costAt_updateBucket_same:
  "k \<notin> set objectPrototypeKeys \<Longrightarrow>
     costAt (updateBucket m k (addToBucket w mm e)) k =
       (if w then costAt m k + eventCost e else costAt m k)"
  by (simp add: costAt_def updateBucket_def emptyBucket_def split: option.splits)

lemma updateBucket_other: "k' \<noteq> k \<Longrightarrow> updateBucket m k f k' = m k'"
  by (simp add: updateBucket_def split: option.splits)

lemma updateBucket_dom:
  "k \<notin> set objectPrototypeKeys \<Longrightarrow> updateBucket m k f k \<noteq> None"
  by (simp add: updateBucket_def split: option.splits)

lemma updateBucket_inherited:
  "m k' = None \<Longrightarrow> k' \<in> set objectPrototypeKeys \<Longrightarrow> updateBucket m k f k' = None"
  by (cases "k' = k") (auto simp: updateBucket_def split: option.splits)

lemma totalCost_foldl:
  "totalCost (fst (foldl statsStep (st, p) xs)) =
     totalCost st + sum_list (map eventCost (filter isCharged xs))"
  by (induction xs arbitrary: st p) (simp_all add: Let_def)

lemma estimatedCost_foldl:
  "estimatedCost (fst (foldl statsStep (st, p) xs)) =
     estimatedCost st + sum_list (map eventCost xs)"
  by (induction xs arbitrary: st p) (simp_all add: Let_def)

lemma byModel_foldl:
  assumes "m \<notin> set objectPrototypeKeys"
  shows "costAt (byModel (fst (foldl statsStep (st, p) xs))) m =
     costAt (byModel st) m +
     sum_list (map eventCost (filter (\<lambda>e. modelKey e = m \<and> isCharged e) xs))"
proof (induction xs arbitrary: st p)
  case Nil
  then show ?case by simp
next
  case (Cons x xs)
  show ?case
  proof (cases "modelKey x = m")
    case True
    then show ?thesis
      using assms by (simp add: Cons.IH Let_def costAt_updateBucket_same)
  next
    case False
    then have "costAt (updateBucket (byModel st) (modelKey x) f) m = costAt (byModel st) m" for f
      by (simp add: costAt_def updateBucket_other)
    with False show ?thesis by (simp add: Cons.IH Let_def)
  qed
qed

lemma byKind_foldl:
  assumes "k \<notin> set objectPrototypeKeys"
  shows "costAt (byKind (fst (foldl statsStep (st, p) xs))) k =
     costAt (byKind st) k + sum_list (map eventCost (filter (\<lambda>e. kindKey e = k) xs))"
proof (induction xs arbitrary: st p)
  case Nil
  then show ?case by simp
next
  case (Cons x xs)
  show ?case
  proof (cases "kindKey x = k")
    case True
    then show ?thesis
      using assms by (simp add: Cons.IH Let_def costAt_updateBucket_same)
  next
    case False
    then have "costAt (updateBucket (byKind st) (kindKey x) f) k = costAt (byKind st) k" for f
      by (simp add: costAt_def updateBucket_other)
    with False show ?thesis by (simp add: Cons.IH Let_def)
  qed
qed

lemma byModel_dom:
  assumes "m \<notin> set objectPrototypeKeys" "byModel st m \<noteq> None \<or> m \<in> modelKey ` set xs"
  shows "byModel (fst (foldl statsStep (st, p) xs)) m \<noteq> None"
  using assms(2)
proof (induction xs arbitrary: st p)
  case Nil
  then show ?case by simp
next
  case (Cons x xs)
  have "updateBucket (byModel st) (modelKey x) f m \<noteq> None \<or> m \<in> modelKey ` set xs" for f
    using Cons.prems assms(1)
    by (cases "modelKey x = m") (auto simp: updateBucket_dom updateBucket_other)
  then show ?case by (simp add: Cons.IH Let_def)
qed

lemma byKind_dom:
  assumes "k \<notin> set objectPrototypeKeys" "byKind st k \<noteq> None \<or> k \<in> kindKey ` set xs"
  shows "byKind (fst (foldl statsStep (st, p) xs)) k \<noteq> None"
  using assms(2)
proof (induction xs arbitrary: st p)
  case Nil
  then show ?case by simp
next
  case (Cons x xs)
  have "updateBucket (byKind st) (kindKey x) f k \<noteq> None \<or> k \<in> kindKey ` set xs" for f
    using Cons.prems assms(1)
    by (cases "kindKey x = k") (auto simp: updateBucket_dom updateBucket_other)
  then show ?case by (simp add: Cons.IH Let_def)
qed

lemma inherited_foldl:
  assumes "k \<in> set objectPrototypeKeys" "byModel st k = None" "byKind st k = None"
  shows "byModel (fst (foldl statsStep (st, p) xs)) k = None \<and>
         byKind (fst (foldl statsStep (st, p) xs)) k = None"
  using assms(2,3)
proof (induction xs arbitrary: st p)
  case Nil
  then show ?case by simp
next
  case (Cons x xs)
  obtain st' p' where step: "statsStep (st, p) x = (st', p')"
    by (cases "statsStep (st, p) x")
  have "byModel st' = updateBucket (byModel st) (modelKey x)
          (addToBucket (isCharged x) (resolveMaxMode p x = Some True) x)"
    and "byKind st' = updateBucket (byKind st) (kindKey x)
          (addToBucket True (resolveMaxMode p x = Some True) x)"
    using step by (auto simp: Let_def)
  then have "byModel st' k = None" "byKind st' k = None"
    using Cons.prems assms(1) by (simp_all add: updateBucket_inherited)
  then show ?case
    using Cons.IH[of st' p'] step by simp
qed

lemma calculateStats_fields [simp]:
  "totalCost (calculateStats now data) =
     totalCost (fst (foldl statsStep (initialStats now (length data), False) data))"
  "estimatedCost (calculateStats now data) =
     estimatedCost (fst (foldl statsStep (initialStats now (length data), False) data))"
  "byModel (calculateStats now data) =
     byModel (fst (foldl statsStep (initialStats now (length data), False) data))"
  "byKind (calculateStats now data) =
     byKind (fst (foldl statsStep (initialStats now (length data), False) data))"
  by (simp_all add: calculateStats_def split: prod.splits)

lemma initialStats_fields [simp]:
  "totalCost (initialStats now n) = 0" "estimatedCost (initialStats now n) = 0"
  "byModel (initialStats now n) = Map.empty" "byKind (initialStats now n) = Map.empty"
  by (simp_all add: initialStats_def)

lemma costAt_empty [simp]: "costAt Map.empty k = 0"
  by (simp add: costAt_def)

lemma costAt_Some: "m k = Some b \<Longrightarrow> costAt m k = agg_cost b"
  by (simp add: costAt_def)

lemma stats_totalCost:
  "totalCost (calculateStats now data) = sum_list (map eventCost (filter isCharged data))"
  by (simp add: totalCost_foldl)

lemma stats_estimatedCost:
  "estimatedCost (calculateStats now data) = sum_list (map eventCost data)"
  by (simp add: estimatedCost_foldl)

lemma stats_byModel:
  assumes "m \<in> modelKey ` set data" "m \<notin> set objectPrototypeKeys"
  shows "\<exists>b. byModel (calculateStats now data) m = Some b \<and>
         agg_cost b = sum_list (map eventCost (filter (\<lambda>e. modelKey e = m \<and> isCharged e) data))"
proof -
  let ?st = "fst (foldl statsStep (initialStats now (length data), False) data)"
  have "byModel ?st m \<noteq> None"
    using assms byModel_dom[of m "initialStats now (length data)" data False] by blast
  then obtain b where b: "byModel ?st m = Some b" by blast
  have "costAt (byModel ?st) m =
      sum_list (map eventCost (filter (\<lambda>e. modelKey e = m \<and> isCharged e) data))"
    by (simp add: byModel_foldl[OF assms(2)])
  with b show ?thesis by (simp add: costAt_Some)
qed

lemma stats_byKind:
  assumes "k \<in> kindKey ` set data" "k \<notin> set objectPrototypeKeys"
  shows "\<exists>b. byKind (calculateStats now data) k = Some b \<and>
         agg_cost b = sum_list (map eventCost (filter (\<lambda>e. kindKey e = k) data))"
proof -
  let ?st = "fst (foldl statsStep (initialStats now (length data), False) data)"
  have "byKind ?st k \<noteq> None"
    using assms byKind_dom[of k "initialStats now (length data)" data False] by blast
  then obtain b where b: "byKind ?st k = Some b" by blast
  have "costAt (byKind ?st) k =
      sum_list (map eventCost (filter (\<lambda>e. kindKey e = k) data))"
    by (simp add: byKind_foldl[OF assms(2)])
  with b show ?thesis by (simp add: costAt_Some)
qed

text \<open>
  A model or kind named like a member of \<open>Object.prototype\<close> never gets a bucket.
\<close>

lemma stats_inherited_key:
  assumes "k \<in> set objectPrototypeKeys"
  shows "byModel (calculateStats now data) k = None \<and> byKind (calculateStats now data) k = None"
  using inherited_foldl[OF assms, of "initialStats now (length data)" False data] by simp

text \<open>
  Claim C3, as the code has it. \<open>totalCost\<close> sums the event costs of the events whose
  kind is neither \<open>errored_not_charged\<close> nor the vendor's spelling
  \<open>USAGE_EVENT_KIND_ERRORED_NOT_CHARGED\<close>, and \<open>estimatedCost\<close> sums over all events.
  For a model name and a kind name that are not member names of \<open>Object.prototype\<close>, the
  statistics hold a bucket: the cost of the model sums the events of the model under the
  same exclusion, the cost of the kind sums all events of the kind. The cost of an event is
  \<open>eventCost\<close>: its \<open>costInfo.originalCost\<close> when present and not zero, else its
  \<open>cost\<close>.
\<close>

theorem stats_cost_exclusion:
  "totalCost (calculateStats now data) =
     sum_list (map eventCost
       (filter (\<lambda>e. kind e \<noteq> ''errored_not_charged'' \<and>
                     kind e \<noteq> ''USAGE_EVENT_KIND_ERRORED_NOT_CHARGED'') data)) \<and>
   estimatedCost (calculateStats now data) = sum_list (map eventCost data) \<and>
   (m \<in> modelKey ` set data \<and> m \<notin> set objectPrototypeKeys \<longrightarrow>
      (\<exists>b. byModel (calculateStats now data) m = Some b \<and>
         agg_cost b =
           sum_list (map eventCost
             (filter (\<lambda>e. modelKey e = m \<and> kind e \<noteq> ''errored_not_charged'' \<and>
                           kind e \<noteq> ''USAGE_EVENT_KIND_ERRORED_NOT_CHARGED'') data)))) \<and>
   (k \<in> kindKey ` set data \<and> k \<notin> set objectPrototypeKeys \<longrightarrow>
      (\<exists>b. byKind (calculateStats now data) k = Some b \<and>
         agg_cost b = sum_list (map eventCost (filter (\<lambda>e. kindKey e = k) data))))"
proof -
  have f1: "filter isCharged data =
      filter (\<lambda>e. kind e \<noteq> ''errored_not_charged'' \<and>
                   kind e \<noteq> ''USAGE_EVENT_KIND_ERRORED_NOT_CHARGED'') data"
    by (rule filter_cong) (auto simp: isCharged_def)
  have f2: "filter (\<lambda>e. modelKey e = m \<and> isCharged e) data =
      filter (\<lambda>e. modelKey e = m \<and> kind e \<noteq> ''errored_not_charged'' \<and>
                   kind e \<noteq> ''USAGE_EVENT_KIND_ERRORED_NOT_CHARGED'') data"
    by (rule filter_cong) (auto simp: isCharged_def)
  show ?thesis
    using stats_totalCost[of now data] stats_estimatedCost[of now data]
      stats_byModel[of m data now] stats_byKind[of k data now]
    unfolding f1 f2 by blast
qed

theorem stats_cost_exclusion_witness:
  "totalCost (calculateStats 1700000000500 sampleEvents) = 10 \<and>
   estimatedCost (calculateStats 1700000000500 sampleEvents) = 15 \<and>
   (\<exists>b. byKind (calculateStats 1700000000500 sampleEvents) ''errored_not_charged'' = Some b \<and>
      agg_cost b = 5) \<and>
   (\<exists>b. byModel (calculateStats 1700000000500 sampleEvents) ''auto'' = Some b \<and>
      agg_cost b = 10)"
proof -
  have k: "''errored_not_charged'' \<in> kindKey ` set sampleEvents"
    "''errored_not_charged'' \<notin> set objectPrototypeKeys"
    by (simp_all add: sampleEvents_def sampleEvent_def kindKey_def objectPrototypeKeys_def)
  have m: "''auto'' \<in> modelKey ` set sampleEvents" "''auto'' \<notin> set objectPrototypeKeys"
    by (simp_all add: sampleEvents_def sampleEvent_def modelKey_def objectPrototypeKeys_def)
  from stats_cost_exclusion [of 1700000000500 sampleEvents "''auto''" "''errored_not_charged''"]
    k m
  show ?thesis
    by (simp add: sampleEvents_def sampleEvent_def eventCost_def kindKey_def modelKey_def)
qed

text \<open>
  The claim as stated fails twice. An event whose kind is the vendor's spelling
  \<open>USAGE_EVENT_KIND_ERRORED_NOT_CHARGED\<close> is left out of \<open>totalCost\<close> although its kind
  is not \<open>errored_not_charged\<close>. And an event of cost 5 whose model is named
  \<open>constructor\<close> is counted in \<open>estimatedCost\<close> while the statistics hold no bucket for
  its model.
\<close>

theorem stats_vendor_kind_and_inherited_key:
  "totalCost
     (calculateStats 1700000000500
        [(sampleEvent ''1700000000100_a'' 1700000000100 5)
           \<lparr>kind := ''USAGE_EVENT_KIND_ERRORED_NOT_CHARGED''\<rparr>]) = 0 \<and>
   sum_list (map eventCost
     (filter (\<lambda>e. kind e \<noteq> ''errored_not_charged'')
        [(sampleEvent ''1700000000100_a'' 1700000000100 5)
           \<lparr>kind := ''USAGE_EVENT_KIND_ERRORED_NOT_CHARGED''\<rparr>])) = 5 \<and>
   ''constructor'' \<in>
     modelKey ` set [(sampleEvent ''1700000000100_a'' 1700000000100 5)\<lparr>model := ''constructor''\<rparr>] \<and>
   estimatedCost
     (calculateStats 1700000000500
        [(sampleEvent ''1700000000100_a'' 1700000000100 5)\<lparr>model := ''constructor''\<rparr>]) = 5 \<and>
   byModel
     (calculateStats 1700000000500
        [(sampleEvent ''1700000000100_a'' 1700000000100 5)\<lparr>model := ''constructor''\<rparr>])
     ''constructor'' = None"
proof -
  have i: "''constructor'' \<in> set objectPrototypeKeys"
    by (simp add: objectPrototypeKeys_def)
  have a: "totalCost
     (calculateStats 1700000000500
        [(sampleEvent ''1700000000100_a'' 1700000000100 5)
           \<lparr>kind := ''USAGE_EVENT_KIND_ERRORED_NOT_CHARGED''\<rparr>]) = 0"
    unfolding stats_totalCost by (simp add: isCharged_def sampleEvent_def)
  have b: "sum_list (map eventCost
     (filter (\<lambda>e. kind e \<noteq> ''errored_not_charged'')
        [(sampleEvent ''1700000000100_a'' 1700000000100 5)
           \<lparr>kind := ''USAGE_EVENT_KIND_ERRORED_NOT_CHARGED''\<rparr>])) = 5"
    by (simp add: eventCost_def sampleEvent_def)
  have c: "''constructor'' \<in>
     modelKey ` set [(sampleEvent ''1700000000100_a'' 1700000000100 5)\<lparr>model := ''constructor''\<rparr>]"
    by (simp add: modelKey_def sampleEvent_def)
  have d: "estimatedCost
     (calculateStats 1700000000500
        [(sampleEvent ''1700000000100_a'' 1700000000100 5)\<lparr>model := ''constructor''\<rparr>]) = 5"
    unfolding stats_estimatedCost by (simp add: eventCost_def sampleEvent_def)
  from a b c d stats_inherited_key[OF i] show ?thesis
    by blast
qed

section \<open>The incremental merge\<close>

lemma mergeUsageData_incremental:
  assumes "usageDataFile fs = Some d"
  shows "mergeUsageData cfg now newData True fs =
     (let existingEvents = fst (updatePass cfg now newData (events d));
          updatedEvents = snd (updatePass cfg now newData (events d));
          newEvents = additionPass newData existingEvents
      in if newEvents = [] \<and> updatedEvents = 0 then fs
         else saveUsageData now (sortByDateDesc (newEvents @ existingEvents)) True
                (Some (lastSyncDate d)) fs)"
  using assms
  by (simp add: mergeUsageData_def loadUsageData_def Let_def split: prod.splits)

lemma sortedNewestFirst_sort: "sortedNewestFirst (sortByDateDesc xs)"
proof -
  have "sorted (map (\<lambda>e. - date e) (sort_key (\<lambda>e. - date e) xs))" by (rule sorted_sort_key)
  then show ?thesis by (simp add: sortedNewestFirst_def sortByDateDesc_def sorted_map)
qed

lemma writeLog_grows: "xs @ [a, b] \<noteq> xs"
  by simp

text \<open>
  Claim C6, as the code has it. A full save persists the batch in the order it was given,
  so the persisted events are newest first exactly when the batch is. An incremental merge
  into an existing dataset that writes at all persists the events ordered newest first by
  date, whatever the order of the incoming batch.
\<close>

theorem persisted_order:
  "persistedEvents (saveUsageData now data False ls fs) = data \<and>
   (usageDataFile fs = Some d \<and>
    writeLog (mergeUsageData cfg now newData True fs) \<noteq> writeLog fs \<longrightarrow>
      sortedNewestFirst (persistedEvents (mergeUsageData cfg now newData True fs)))"
  by (auto simp: mergeUsageData_incremental Let_def sortedNewestFirst_sort)

text \<open>
  A full save of a batch given oldest first persists it oldest first.
\<close>

theorem full_save_keeps_batch_order:
  "\<not> sortedNewestFirst
       (persistedEvents
          (saveUsageData 1700000000500
             [sampleEvent ''1700000000100_a'' 1700000000100 1,
              sampleEvent ''1700000000300_b'' 1700000000300 1] False None
             \<lparr>usageDataFile = None, statsFile = None, writeLog = []\<rparr>))"
  by (simp add: sortedNewestFirst_def sampleEvent_def)

lemma updatePass_CONFIG: "updatePass CONFIG now newData evs = (evs, 0)"
  by (simp add: updatePass_def getActiveEvents_CONFIG)

lemma idTimestamp_samples [simp]:
  "idTimestamp ''1700000000100_a'' = ''1700000000100''"
  "idTimestamp ''1700000000200_b'' = ''1700000000200''"
  "idTimestamp ''1700000000300_c'' = ''1700000000300''"
  "idTimestamp ''1700000000100_abc'' = ''1700000000100''"
  "idTimestamp ''1700000000100_xyz'' = ''1700000000100''"
  "idTimestamp ''1700000000100_uvw'' = ''1700000000100''"
  "idTimestamp ''1600000000000_abc'' = ''1600000000000''"
  "idTimestamp ''1600000000000_xyz'' = ''1600000000000''"
  by (simp_all add: idTimestamp_def)

theorem persisted_order_witness:
  "persistedEvents
     (mergeUsageData CONFIG 1700000000500
        [sampleEvent ''1700000000200_b'' 1700000000200 1,
         sampleEvent ''1700000000300_c'' 1700000000300 1] True
        (sampleDisk [sampleEvent ''1700000000100_a'' 1700000000100 1] 500)) =
     [sampleEvent ''1700000000300_c'' 1700000000300 1,
      sampleEvent ''1700000000200_b'' 1700000000200 1,
      sampleEvent ''1700000000100_a'' 1700000000100 1] \<and>
   sortedNewestFirst
     (persistedEvents
        (mergeUsageData CONFIG 1700000000500
           [sampleEvent ''1700000000200_b'' 1700000000200 1,
            sampleEvent ''1700000000300_c'' 1700000000300 1] True
           (sampleDisk [sampleEvent ''1700000000100_a'' 1700000000100 1] 500)))"
proof -
  let ?a = "sampleEvent ''1700000000100_a'' 1700000000100 1"
  let ?b = "sampleEvent ''1700000000200_b'' 1700000000200 1"
  let ?c = "sampleEvent ''1700000000300_c'' 1700000000300 1"
  let ?fs = "sampleDisk [?a] 500"
  let ?m = "mergeUsageData CONFIG 1700000000500 [?b, ?c] True ?fs"
  have d: "usageDataFile ?fs = Some (the (usageDataFile ?fs))" "events (the (usageDataFile ?fs)) = [?a]"
    by (simp_all add: sampleDisk_def)
  have n: "additionPass [?b, ?c] [?a] = [?b, ?c]"
    by (simp add: additionPass_def sampleEvent_def)
  have s: "sortByDateDesc [?b, ?c, ?a] = [?c, ?b, ?a]"
    by (simp add: sortByDateDesc_def sampleEvent_def)
  have p: "persistedEvents ?m = [?c, ?b, ?a]"
    by (simp add: mergeUsageData_incremental[OF d(1)] d(2) updatePass_CONFIG n s Let_def)
  have w: "writeLog ?m \<noteq> writeLog ?fs"
    by (simp add: mergeUsageData_incremental[OF d(1)] d(2) updatePass_CONFIG n Let_def)
  from persisted_order [where fs = ?fs and d = "the (usageDataFile ?fs)" and cfg = CONFIG
      and now = 1700000000500 and newData = "[?b, ?c]"] d(1) w
  have "sortedNewestFirst (persistedEvents ?m)" by blast
  with p show ?thesis by simp
qed

section \<open>No-op merges\<close>

lemma foldl_checkActiveEvent_unchanged:
  assumes "\<forall>a \<in> set as. \<forall>u.
     find (\<lambda>event. eventId event \<noteq> [] \<and> startsWith (eventId event) (idTimestamp (eventId a))) nv = Some u
       \<longrightarrow> \<not> isEventUpdated a u"
  shows "foldl (checkActiveEvent nv) (evs, n) as = (evs, n)"
  using assms by (induction as) (auto split: option.splits)

lemma mergeUsageData_unchanged:
  assumes "usageDataFile fs = Some d"
    and "\<forall>e \<in> set newData.
           eventId e \<in> eventId ` set (events d) \<or>
           idTimestamp (eventId e) \<in> (\<lambda>x. idTimestamp (eventId x)) ` set (events d)"
    and "\<forall>a \<in> set (getActiveEvents cfg now (events d)). \<forall>u.
           find (\<lambda>event. eventId event \<noteq> [] \<and>
                   startsWith (eventId event) (idTimestamp (eventId a)))
             (map snd (newEventsMap newData)) = Some u
           \<longrightarrow> \<not> isEventUpdated a u"
  shows "mergeUsageData cfg now newData True fs = fs"
proof -
  have u: "updatePass cfg now newData (events d) = (events d, 0)"
    unfolding updatePass_def using assms(3) by (rule foldl_checkActiveEvent_unchanged)
  have "additionPass newData (events d) = []"
    unfolding additionPass_def Let_def using assms(2) by (auto simp: filter_empty_conv)
  then show ?thesis
    by (simp add: mergeUsageData_incremental[OF assms(1)] u)
qed

text \<open>
  Claim C9. In an incremental merge into an existing dataset, when every incoming event
  has its id or its timestamp prefix among the stored events and no active event is
  found updated, nothing is written: the data directory is the same afterwards, the
  dataset (events, watermark, sync metadata) and the statistics included, and no file
  write is logged.
\<close>

theorem merge_noop:
  assumes "usageDataFile fs = Some d"
    and "\<forall>e \<in> set newData.
           eventId e \<in> eventId ` set (events d) \<or>
           idTimestamp (eventId e) \<in> (\<lambda>x. idTimestamp (eventId x)) ` set (events d)"
    and "\<forall>a \<in> set (getActiveEvents cfg now (events d)). \<forall>u.
           find (\<lambda>event. eventId event \<noteq> [] \<and>
                   startsWith (eventId event) (idTimestamp (eventId a)))
             (map snd (newEventsMap newData)) = Some u
           \<longrightarrow> \<not> isEventUpdated a u"
  shows "mergeUsageData cfg now newData True fs = fs \<and>
         writeLog (mergeUsageData cfg now newData True fs) = writeLog fs \<and>
         usageDataFile (mergeUsageData cfg now newData True fs) = Some d \<and>
         statsFile (mergeUsageData cfg now newData True fs) = statsFile fs"
  using mergeUsageData_unchanged[OF assms] assms(1) by simp


theorem merge_noop_witness:
  "getActiveEvents README_CONFIG 1700000000500
     [sampleEvent ''1700000000100_abc'' 1700000000100 1] =
     [sampleEvent ''1700000000100_abc'' 1700000000100 1] \<and>
   mergeUsageData README_CONFIG 1700000000500
     [sampleEvent ''1700000000100_xyz'' 1700000000100 1] True
     (sampleDisk [sampleEvent ''1700000000100_abc'' 1700000000100 1] 500) =
   sampleDisk [sampleEvent ''1700000000100_abc'' 1700000000100 1] 500"
proof -
  let ?a = "sampleEvent ''1700000000100_abc'' 1700000000100 1"
  let ?u = "sampleEvent ''1700000000100_xyz'' 1700000000100 1"
  let ?fs = "sampleDisk [?a] 500"
  let ?d = "the (usageDataFile ?fs)"
  have d: "usageDataFile ?fs = Some ?d" "events ?d = [?a]"
    by (simp_all add: sampleDisk_def)
  have g: "getActiveEvents README_CONFIG 1700000000500 [?a] = [?a]"
    by (simp add: getActiveEvents_def README_CONFIG_def sampleEvent_def)
  have h2: "\<forall>e \<in> set [?u].
           eventId e \<in> eventId ` set (events ?d) \<or>
           idTimestamp (eventId e) \<in> (\<lambda>x. idTimestamp (eventId x)) ` set (events ?d)"
    unfolding d(2) by (simp add: sampleEvent_def)
  have n: "\<not> isEventUpdated ?a ?u"
    by (simp add: isEventUpdated_def tokenFieldsChanged_def costFieldsChanged_def sampleEvent_def)
  have f: "find (\<lambda>event. eventId event \<noteq> [] \<and>
                   startsWith (eventId event) (idTimestamp (eventId ?a)))
             (map snd (newEventsMap [?u])) = Some ?u"
    by (simp add: newEventsMap_def startsWith_def sampleEvent_def)
  have h3: "\<forall>a \<in> set (getActiveEvents README_CONFIG 1700000000500 (events ?d)). \<forall>u.
           find (\<lambda>event. eventId event \<noteq> [] \<and>
                   startsWith (eventId event) (idTimestamp (eventId a)))
             (map snd (newEventsMap [?u])) = Some u
           \<longrightarrow> \<not> isEventUpdated a u"
    unfolding d(2) g using f n by simp
  from merge_noop [OF d(1) h2 h3] g show ?thesis by simp
qed

section \<open>Replacement keeps the timestamp prefixes\<close>





declare checkActiveEvent.simps [simp del]






lemma filter_hasTimestamp:
  "filter (hasTimestamp T) ys = filter (\<lambda>e. idTimestamp (eventId e) = T) ys"
  by (rule filter_cong) (simp_all add: hasTimestamp_def)


section \<open>The survivor of a timestamp prefix\<close>















end
